theory Spec2Isabelle
  imports Complex_Main
begin

section \<open>Work Queue scheduling tools of coffea: a shallow embedding\<close>

text \<open>
  The definitions below follow \<^verbatim>\<open>src/coffea/processor/work_queue_tools.py\<close>.
  Python names that start with an underscore lose it (\<^verbatim>\<open>_floor_to_pow2\<close> is
  \<open>floor_to_pow2\<close>), and a method is prefixed with its class where the bare name
  is taken (\<^verbatim>\<open>Stats.get\<close> is \<open>Stats_get\<close>).

  Python integers are \<open>int\<close>. Python floats are modelled as exact real numbers:
  rounding, infinities and NaN are outside the model, except for the NaN that the
  regression can return, which has a constructor of its own.
\<close>

subsection \<open>Exceptions\<close>

datatype py_error =
    KeyError string
  | ZeroDivisionError
  | ValueError
  | RuntimeError string
  | NotImplementedError

subsection \<open>Stats: a dict of counters\<close>

text \<open>
  \<^verbatim>\<open>class Stats(dict)\<close>. Every method mutates the dict in place; the model
  returns the updated mapping.
\<close>

type_synonym 'v Stats = "string \<rightharpoonup> 'v"

text \<open>\<^verbatim>\<open>dict.setdefault(key, default)\<close>: the stored value, or \<open>default\<close> after storing it.\<close>

definition setdefault :: "('k \<rightharpoonup> 'v) \<Rightarrow> 'k \<Rightarrow> 'v \<Rightarrow> 'v \<times> ('k \<rightharpoonup> 'v)" where
  "setdefault d key dflt =
     (case d key of
        Some v \<Rightarrow> (v, d)
      | None \<Rightarrow> (dflt, d(key \<mapsto> dflt)))"

text \<open>
  \<^verbatim>\<open>def get(self, stat, default=None): return self.setdefault(stat, 0)\<close>.
  The parameter \<open>default\<close> is accepted and not used.
\<close>

definition Stats_get :: "('v::zero) Stats \<Rightarrow> string \<Rightarrow> 'd \<Rightarrow> 'v \<times> 'v Stats" where
  "Stats_get self stat dflt = setdefault self stat 0"

definition Stats_set :: "'v Stats \<Rightarrow> string \<Rightarrow> 'v \<Rightarrow> 'v Stats" where
  "Stats_set self stat v = self(stat \<mapsto> v)"

definition Stats_inc :: "('v::plus) Stats \<Rightarrow> string \<Rightarrow> 'v \<Rightarrow> 'v Stats" where
  "Stats_inc self stat delta =
     (case self stat of
        Some v \<Rightarrow> self(stat \<mapsto> v + delta)
      | None \<Rightarrow> self(stat \<mapsto> delta))"

definition Stats_min :: "('v::linorder) Stats \<Rightarrow> string \<Rightarrow> 'v \<Rightarrow> 'v Stats" where
  "Stats_min self stat v =
     (case self stat of
        Some w \<Rightarrow> self(stat \<mapsto> min w v)
      | None \<Rightarrow> self(stat \<mapsto> v))"

subsection \<open>The force-flush flag of \<^verbatim>\<open>_submit_accum_tasks\<close>\<close>

text \<open>
  Lines 355 to 359. The flag is computed twice: once with \<^verbatim>\<open>or\<close>, then again
  from \<^verbatim>\<open>early_terminate\<close> with \<^verbatim>\<open>|=\<close>. Each of the four calls of
  \<^verbatim>\<open>stats.get\<close> may insert a missing counter, so the mapping is threaded through.
\<close>

definition force_flag :: "int Stats \<Rightarrow> bool \<Rightarrow> bool \<times> int Stats" where
  "force_flag stats early_terminate =
     (let (p1, s1) = Stats_get stats ''events_processed'' ();
          (t1, s2) = Stats_get s1 ''events_total'' ();
          force = (p1 \<ge> t1) \<or> early_terminate;
          force = early_terminate;
          (p2, s3) = Stats_get s2 ''events_processed'' ();
          (t2, s4) = Stats_get s3 ''events_total'' ();
          force = (force \<or> p2 \<ge> t2)
      in (force, s4))"

text \<open>The value a counter reads as: a missing counter reads as 0.\<close>

definition counter :: "int Stats \<Rightarrow> string \<Rightarrow> int" where
  "counter stats k = fst (Stats_get stats k ())"

text \<open>The flag as the specification words it.\<close>

definition force_flush_spec :: "int \<Rightarrow> int \<Rightarrow> bool \<Rightarrow> bool" where
  "force_flush_spec processed events_total cancellation_requested =
     ((processed \<ge> events_total) \<or> cancellation_requested)"

subsection \<open>Rounding a chunk size down to a power of two\<close>

text \<open>
  \<^verbatim>\<open>
  def _floor_to_pow2(value):
      if value < 1:
          return 1
      return pow(2, math.floor(math.log2(value)))
  \<close>
  \<^verbatim>\<open>math.log2\<close> is the exact binary logarithm here.
\<close>

definition floor_to_pow2 :: "real \<Rightarrow> int" where
  "floor_to_pow2 v = (if v < 1 then 1 else 2 ^ nat \<lfloor>log 2 v\<rfloor>)"

subsection \<open>The chunk-size estimator\<close>

text \<open>\<^verbatim>\<open>TaskReport = namedtuple("TaskReport", ["events_count", "wall_time", "memory"])\<close>\<close>

record TaskReport =
  events_count :: real
  wall_time :: real
  memory :: real

text \<open>
  \<^verbatim>\<open>numpy.quantile(a, q, interpolation="nearest")\<close>, from numpy's documentation:
  the element of the sorted data at index \<open>(n - 1) * q\<close> rounded to the nearest
  integer, a tie going to the even one (\<^verbatim>\<open>numpy.around\<close>).
\<close>

definition round_half_even :: "real \<Rightarrow> int" where
  "round_half_even x =
     (let f = \<lfloor>x\<rfloor>; d = x - of_int f
      in if d < 1 / 2 then f
         else if 1 / 2 < d then f + 1
         else if even f then f else f + 1)"

definition quantile_nearest :: "real list \<Rightarrow> real \<Rightarrow> real" where
  "quantile_nearest a q = sort a ! nat (round_half_even ((real (length a) - 1) * q))"

text \<open>
  \<^verbatim>\<open>scipy.stats.linregress(x, y)\<close>, from scipy's documentation: the least-squares
  line through the points. It raises on empty input. When all \<open>x\<close> are equal the
  slope is a division of zero by zero: the source's comment says that slope and
  intercept "may be nan when data falls in a vertical line".
\<close>

datatype pyfloat = NaN | Num real

definition mean :: "real list \<Rightarrow> real" where
  "mean xs = sum_list xs / real (length xs)"

definition linregress :: "real list \<Rightarrow> real list \<Rightarrow> py_error + pyfloat \<times> pyfloat" where
  "linregress x y =
     (if x = [] then Inl ValueError
      else
        let xmean = mean x; ymean = mean y;
            ssxm = mean (map (\<lambda>a. (a - xmean) * (a - xmean)) x);
            ssxym = mean (map (\<lambda>(a, b). (a - xmean) * (b - ymean)) (zip x y))
        in if ssxm = 0 then Inr (NaN, NaN)
           else let slope = ssxym / ssxm
                in Inr (Num slope, Num (ymean - slope * xmean)))"

text \<open>
  The guard of lines 1176 to 1182:
  \<^verbatim>\<open>slope is None or isnan(slope) or isnan(intercept) or slope < 0 or intercept > 0\<close>.
  \<open>Inl\<close> is the exception caught at line 1173, which sets \<^verbatim>\<open>slope = None\<close>.
\<close>

fun fit_rejected :: "py_error + pyfloat \<times> pyfloat \<Rightarrow> bool" where
  "fit_rejected (Inl e) = True"
| "fit_rejected (Inr (NaN, i)) = True"
| "fit_rejected (Inr (Num s, NaN)) = True"
| "fit_rejected (Inr (Num s, Num i)) = (s < 0 \<or> 0 < i)"

text \<open>
  Lines 1176 to 1189: the fitted line, or the line through the origin with the
  median rate \<open>med\<close> as slope when the guard rejects the fit.
\<close>

fun checked_fit :: "real \<Rightarrow> py_error + pyfloat \<times> pyfloat \<Rightarrow> real \<times> real" where
  "checked_fit med (Inr (Num s, Num i)) = (if s < 0 \<or> 0 < i then (med, 0) else (s, i))"
| "checked_fit med fit = (med, 0)"

text \<open>Line 1158: the rate of each pair (observed resource, events).\<close>

definition rates :: "(real \<times> real) list \<Rightarrow> real list" where
  "rates pairs = map (\<lambda>(t, e). e / max 1 t) pairs"

text \<open>Lines 1161 to 1165: the pairs whose rate is not below the first quartile.\<close>

definition pairs_filtered :: "(real \<times> real) list \<Rightarrow> (real \<times> real) list" where
  "pairs_filtered pairs =
     (let avgs = rates pairs; q0 = quantile_nearest avgs (1 / 4)
      in map snd (filter (\<lambda>(avg, p). q0 \<le> avg) (zip avgs pairs)))"

text \<open>Lines 1167 to 1174: the regression over the filtered pairs.\<close>

definition fit_of :: "(real \<times> real) list \<Rightarrow> py_error + pyfloat \<times> pyfloat" where
  "fit_of pairs = linregress (map fst (pairs_filtered pairs)) (map snd (pairs_filtered pairs))"

text \<open>Line 1159, second entry: the 50th percentile of the rates.\<close>

definition median_rate :: "(real \<times> real) list \<Rightarrow> real" where
  "median_rate pairs = quantile_nearest (rates pairs) (1 / 2)"

text \<open>
  \<^verbatim>\<open>_compute_chunksize_target(target, pairs)\<close>. \<open>None\<close> is Python's \<^verbatim>\<open>None\<close>.
\<close>

definition compute_chunksize_target :: "real \<Rightarrow> (real \<times> real) list \<Rightarrow> real option" where
  "compute_chunksize_target target pairs =
     (case pairs of
        [] \<Rightarrow> None
      | p # _ \<Rightarrow>
          if fst p < 0 then None
          else
            let avgs = rates pairs;
                median = quantile_nearest avgs (1 / 2);
                (slope, intercept) = checked_fit median (fit_of pairs);
                org = (slope * target) + intercept
            in Some org)"

text \<open>
  \<^verbatim>\<open>_compute_chunksize(base_chunksize, resource_targets, task_reports)\<close>.
  \<open>resource_targets\<close> is \<^verbatim>\<open>None\<close> or a dict whose values are numbers or
  \<^verbatim>\<open>None\<close>. Line 1127 reads the wall-time target with \<^verbatim>\<open>.get("wall_time", None)\<close>;
  line 1133 reads the memory target with \<^verbatim>\<open>resource_targets["memory"]\<close>, which
  raises \<^verbatim>\<open>KeyError\<close> on a dict without that key.

  \<^verbatim>\<open>if target:\<close> and \<^verbatim>\<open>if c\<close> hold for a number other than zero.
  The handler of \<^verbatim>\<open>ValueError\<close> at line 1147 is reached when
  \<^verbatim>\<open>math.floor\<close> meets a NaN only, which a real number never is.
\<close>

definition estimate :: "real option \<Rightarrow> (real \<times> real) list \<Rightarrow> real option" where
  "estimate target pairs =
     (case target of
        None \<Rightarrow> None
      | Some t \<Rightarrow> if t \<noteq> 0 then compute_chunksize_target t pairs else None)"

definition candidate_sizes :: "real option list \<Rightarrow> real list" where
  "candidate_sizes cs = concat (map (\<lambda>c. case c of None \<Rightarrow> [] | Some x \<Rightarrow> if x \<noteq> 0 then [x] else []) cs)"

definition py_min :: "real list \<Rightarrow> real" where
  "py_min xs = fold min (tl xs) (hd xs)"

definition compute_chunksize ::
  "int \<Rightarrow> (string \<rightharpoonup> real option) option \<Rightarrow> TaskReport list \<Rightarrow> py_error + int" where
  "compute_chunksize base_chunksize resource_targets task_reports =
     (case
        (case resource_targets of
           None \<Rightarrow> Inr (None, None)
         | Some rt \<Rightarrow>
             if 1 < length task_reports then
               let target_time = (case rt ''wall_time'' of None \<Rightarrow> None | Some v \<Rightarrow> v);
                   chunksize_time =
                     estimate target_time (map (\<lambda>r. (wall_time r, events_count r)) task_reports)
               in case rt ''memory'' of
                    None \<Rightarrow> Inl (KeyError ''memory'')
                  | Some target_memory \<Rightarrow>
                      Inr (chunksize_time,
                           estimate target_memory
                             (map (\<lambda>r. (memory r, events_count r)) task_reports))
             else Inr (None, None))
      of
        Inl e \<Rightarrow> Inl e
      | Inr (chunksize_time, chunksize_memory) \<Rightarrow>
          let cands = candidate_sizes [chunksize_time, chunksize_memory];
              chunksize = (if cands \<noteq> [] then py_min cands else real_of_int base_chunksize)
          in Inr (floor_to_pow2 chunksize))"

subsection \<open>Work items, tasks and the queue\<close>

text \<open>
  Modelled from the spec: \<^verbatim>\<open>WorkItem\<close> is imported from the executor module, which
  is not among the sources. The spec describes it as an immutable descriptor with a
  dataset identifier, a source locator, a sub-range \<open>[start, stop)\<close>, a unique
  identifier and user metadata; its length is the number of events of the sub-range.
  The field names are those that \<^verbatim>\<open>ProcCoffeaWQTask.split\<close> reads.
\<close>

record WorkItem =
  dataset :: string
  filename :: string
  treename :: string
  entrystart :: int
  entrystop :: int
  fileuuid :: string
  usermeta :: string

definition len_WorkItem :: "WorkItem \<Rightarrow> int" where
  "len_WorkItem w = entrystop w - entrystart w"

text \<open>
  The attributes that \<^verbatim>\<open>CoffeaWQTask.__init__\<close> and its subclasses set, and the two
  that the execution service sets on completion: \<open>result\<close> (\<open>None\<close> until the task
  has completed) and \<open>fout_size\<close> (set by \<^verbatim>\<open>CoffeaWQ.wait\<close>). Staging files,
  declared inputs and outputs and console messages are not modelled.
\<close>

record attrs =
  itemid :: string
  task_size :: int
  retries_to_go :: int
  result :: "int option"
  fin_size :: real
  fout_size :: real

datatype task =
    PreProcCoffeaWQTask attrs WorkItem
  | ProcCoffeaWQTask attrs WorkItem
  | AccumCoffeaWQTask attrs "task list"

fun attrs_of :: "task \<Rightarrow> attrs" where
  "attrs_of (PreProcCoffeaWQTask a w) = a"
| "attrs_of (ProcCoffeaWQTask a w) = a"
| "attrs_of (AccumCoffeaWQTask a ts) = a"

fun with_attrs :: "task \<Rightarrow> attrs \<Rightarrow> task" where
  "with_attrs (PreProcCoffeaWQTask a w) b = PreProcCoffeaWQTask b w"
| "with_attrs (ProcCoffeaWQTask a w) b = ProcCoffeaWQTask b w"
| "with_attrs (AccumCoffeaWQTask a ts) b = AccumCoffeaWQTask b ts"

text \<open>\<^verbatim>\<open>len(task)\<close> is \<^verbatim>\<open>task.size\<close>, the field \<open>task_size\<close>.\<close>

definition len_task :: "task \<Rightarrow> int" where
  "len_task t = task_size (attrs_of t)"

text \<open>
  The value of \<^verbatim>\<open>wq.WORK_QUEUE_RESULT_RESOURCE_EXHAUSTION\<close> in the Work Queue
  library. Only its being one fixed result code matters below.
\<close>

definition WORK_QUEUE_RESULT_RESOURCE_EXHAUSTION :: int where
  "WORK_QUEUE_RESULT_RESOURCE_EXHAUSTION = 16"

text \<open>The fields of the executor that the scheduler reads.\<close>

record executor =
  retries :: int
  split_on_exhaustion :: bool
  chunks_per_accum :: int
  chunksize :: int

text \<open>
  The state of \<^verbatim>\<open>CoffeaWQ\<close>, with the class attribute
  \<^verbatim>\<open>CoffeaWQTask.tasks_counter\<close> and the global \<^verbatim>\<open>early_terminate\<close>.
  \<open>submitted\<close> lists the tasks handed to \<^verbatim>\<open>submit\<close>, oldest first.
  \<^verbatim>\<open>_submit_accum_tasks\<close> reads its counters from \<^verbatim>\<open>self.coffea_stats\<close>, and
  \<^verbatim>\<open>split\<close> writes to \<^verbatim>\<open>queue.stats_coffea\<close>: both are fields here.
  \<open>accumulating_total\<close> is \<^verbatim>\<open>progress_bars["accumulating"].total\<close>.
\<close>

record queue =
  executor :: executor
  current_chunksize :: int
  stats_coffea :: "int Stats"
  coffea_stats :: "int Stats"
  tasks_to_accumulate :: "task list"
  submitted :: "task list"
  tasks_counter :: nat
  early_terminate :: bool
  accumulating_total :: int

definition submit :: "queue \<Rightarrow> task \<Rightarrow> queue" where
  "submit q t = q\<lparr>submitted := submitted q @ [t]\<rparr>"

text \<open>Decimal digits, for \<^verbatim>\<open>"p_{}".format(CoffeaWQTask.tasks_counter)\<close>.\<close>

fun string_of_nat :: "nat \<Rightarrow> string" where
  "string_of_nat n =
     (if n < 10 then [''0123456789'' ! n]
      else string_of_nat (n div 10) @ [''0123456789'' ! (n mod 10)])"

declare string_of_nat.simps [simp del]

text \<open>
  \<^verbatim>\<open>CoffeaWQTask.__init__\<close>: the counter goes up by one and the retry budget is
  the executor's. The subclasses choose the item id before that, from the counter's
  old value, when \<^verbatim>\<open>not itemid\<close> holds (\<^verbatim>\<open>None\<close> or the empty string).
\<close>

definition choose_itemid :: "string \<Rightarrow> queue \<Rightarrow> string option \<Rightarrow> string" where
  "choose_itemid prefix q given =
     (case given of
        None \<Rightarrow> prefix @ string_of_nat (tasks_counter q)
      | Some i \<Rightarrow> if i = [] then prefix @ string_of_nat (tasks_counter q) else i)"

definition init_attrs :: "queue \<Rightarrow> string \<Rightarrow> int \<Rightarrow> real \<Rightarrow> attrs" where
  "init_attrs q i sz fin =
     \<lparr>itemid = i, task_size = sz, retries_to_go = retries (executor q), result = None,
      fin_size = fin, fout_size = 0\<rparr>"

definition count_task :: "queue \<Rightarrow> queue" where
  "count_task q = q\<lparr>tasks_counter := tasks_counter q + 1\<rparr>"

definition new_PreProcCoffeaWQTask :: "queue \<Rightarrow> WorkItem \<Rightarrow> string option \<Rightarrow> task \<times> queue" where
  "new_PreProcCoffeaWQTask q w given =
     (PreProcCoffeaWQTask (init_attrs q (choose_itemid ''pre_'' q given) 1 0) w, count_task q)"

definition new_ProcCoffeaWQTask :: "queue \<Rightarrow> WorkItem \<Rightarrow> string option \<Rightarrow> task \<times> queue" where
  "new_ProcCoffeaWQTask q w given =
     (ProcCoffeaWQTask (init_attrs q (choose_itemid ''p_'' q given) (len_WorkItem w) 0) w,
      count_task q)"

definition new_AccumCoffeaWQTask :: "queue \<Rightarrow> task list \<Rightarrow> string option \<Rightarrow> task \<times> queue" where
  "new_AccumCoffeaWQTask q ts given =
     (AccumCoffeaWQTask
        (init_attrs q (choose_itemid ''accum_'' q given)
           (sum_list (map len_task ts)) (sum_list (map (\<lambda>t. fout_size (attrs_of t)) ts)))
        ts,
      count_task q)"

text \<open>\<^verbatim>\<open>clone\<close>: the same payload and item id, through the constructor.\<close>

fun clone :: "task \<Rightarrow> queue \<Rightarrow> task \<times> queue" where
  "clone (PreProcCoffeaWQTask a w) q = new_PreProcCoffeaWQTask q w (Some (itemid a))"
| "clone (ProcCoffeaWQTask a w) q = new_ProcCoffeaWQTask q w (Some (itemid a))"
| "clone (AccumCoffeaWQTask a ts) q = new_AccumCoffeaWQTask q ts (Some (itemid a))"

subsection \<open>Splitting a processing task\<close>

text \<open>
  \<^verbatim>\<open>math.ceil(a / b)\<close> for integers \<open>a\<close> and \<open>b \<noteq> 0\<close>. The quotient is the exact
  one; Python's float quotient agrees with it as long as \<open>a\<close> and \<open>b\<close> are below
  \<open>2 ^ 53\<close>.
\<close>

definition py_ceil_div :: "int \<Rightarrow> int \<Rightarrow> int" where
  "py_ceil_div a b = \<lceil>real_of_int a / real_of_int b\<rceil>"

text \<open>
  The loop of lines 813 to 829. Each child is built by the constructor, with no item
  id given. The loop does not end when \<open>actual_chunksize\<close> is not positive, so its
  result is an option: \<open>None\<close> is a loop that never returns.
\<close>

partial_function (option) split_loop ::
  "queue \<Rightarrow> WorkItem \<Rightarrow> int \<Rightarrow> int \<Rightarrow> task list \<Rightarrow> (task list \<times> queue) option" where
  "split_loop q it actual_chunksize start splits =
     (if start < entrystop it then
        let stop = min (entrystop it) (start + actual_chunksize);
            w = it\<lparr>entrystart := start, entrystop := stop\<rparr>;
            (t, q') = new_ProcCoffeaWQTask q w None
        in split_loop q' it actual_chunksize stop (splits @ [t])
      else Some (splits, q))"

text \<open>
  \<^verbatim>\<open>ProcCoffeaWQTask.split\<close>, and \<^verbatim>\<open>CoffeaWQTask.split\<close> for the other two
  classes. Line 805 divides by the target chunk size, which raises
  \<^verbatim>\<open>ZeroDivisionError\<close> when that is 0.
\<close>

fun split :: "task \<Rightarrow> queue \<Rightarrow> (py_error + task list \<times> queue) option" where
  "split (ProcCoffeaWQTask a it) q =
     (let total = len_WorkItem it
      in if total < 2 then
           Some (Inl (RuntimeError ''processing task cannot be split any further.''))
         else
           let target_chunksize = current_chunksize q;
               target_chunksize =
                 (if total \<le> target_chunksize then py_ceil_div total 2 else target_chunksize)
           in if target_chunksize = 0 then Some (Inl ZeroDivisionError)
              else
                let n = max (py_ceil_div total target_chunksize) 1;
                    actual_chunksize = py_ceil_div total n;
                    stats = Stats_inc (stats_coffea q) ''chunks_split'' 1;
                    stats = Stats_min stats ''min_chunksize_after_split'' actual_chunksize;
                    q = q\<lparr>stats_coffea := stats\<rparr>
                in map_option Inr (split_loop q it actual_chunksize (entrystart it) []))"
| "split t q = Some (Inl (RuntimeError ''task cannot be split any further.''))"

text \<open>The range of events of a task's work item; an accumulation task has none.\<close>

fun range_of :: "task \<Rightarrow> int \<times> int" where
  "range_of (PreProcCoffeaWQTask a w) = (entrystart w, entrystop w)"
| "range_of (ProcCoffeaWQTask a w) = (entrystart w, entrystop w)"
| "range_of (AccumCoffeaWQTask a ts) = (0, 0)"

fun is_Proc :: "task \<Rightarrow> bool" where
  "is_Proc (ProcCoffeaWQTask a w) = True"
| "is_Proc t = False"

text \<open>The ranges the loop walks through, as a list of pairs (start, stop).\<close>

function chunk_ranges :: "int \<Rightarrow> int \<Rightarrow> int \<Rightarrow> (int \<times> int) list" where
  "chunk_ranges start stop k =
     (if start < stop \<and> 0 < k then
        (start, min stop (start + k)) # chunk_ranges (min stop (start + k)) stop k
      else [])"
  by pat_completeness auto
termination
  by (relation "measure (\<lambda>(start, stop, k). nat (stop - start))") auto

text \<open>Each range ends where the next one starts.\<close>

fun contiguous :: "(int \<times> int) list \<Rightarrow> bool" where
  "contiguous (r1 # r2 # rs) = (snd r1 = fst r2 \<and> contiguous (r2 # rs))"
| "contiguous rs = True"

text \<open>No event belongs to two ranges of the list.\<close>

fun pairwise_disjoint :: "(int \<times> int) list \<Rightarrow> bool" where
  "pairwise_disjoint [] = True"
| "pairwise_disjoint (r # rs) =
     ((\<forall>r' \<in> set rs. {fst r..<snd r} \<inter> {fst r'..<snd r'} = {}) \<and> pairwise_disjoint rs)"

subsection \<open>Resubmitting a failed task\<close>

text \<open>
  \<^verbatim>\<open>CoffeaWQTask.resubmit\<close>, lines 592 to 615. The task has completed, so its
  \<open>result\<close> holds what the execution service reported.
\<close>

definition resubmit :: "task \<Rightarrow> queue \<Rightarrow> (py_error + task list \<times> queue) option" where
  "resubmit self q =
     (if retries_to_go (attrs_of self) < 1 \<or> \<not> split_on_exhaustion (executor q) then
        Some (Inl (RuntimeError
          (''item '' @ itemid (attrs_of self) @ '' failed permanently. No more retries left.'')))
      else
        case
          (if result (attrs_of self) = Some WORK_QUEUE_RESULT_RESOURCE_EXHAUSTION then
             split self q
           else
             let (t, q') = clone self q;
                 t = with_attrs t
                       ((attrs_of t)\<lparr>retries_to_go := retries_to_go (attrs_of self) - 1\<rparr>)
             in Some (Inr ([t], q')))
        of
          None \<Rightarrow> None
        | Some (Inl e) \<Rightarrow> Some (Inl e)
        | Some (Inr (resubmissions, q')) \<Rightarrow>
            Some (Inr (resubmissions, fold (\<lambda>t q. submit q t) resubmissions q')))"

text \<open>
  The completion of a task with result code \<open>code\<close>, and \<open>n\<close> failures in a row:
  the task completes with \<open>code\<close> and is resubmitted, then the task that was
  resubmitted completes with \<open>code\<close>, and so on.
\<close>

definition completed :: "task \<Rightarrow> int \<Rightarrow> task" where
  "completed t code = with_attrs t ((attrs_of t)\<lparr>result := Some code\<rparr>)"

fun fail_repeatedly ::
  "nat \<Rightarrow> int \<Rightarrow> task \<Rightarrow> queue \<Rightarrow> (py_error + task list \<times> queue) option" where
  "fail_repeatedly 0 code t q = Some (Inr ([t], q))"
| "fail_repeatedly (Suc n) code t q =
     (case resubmit (completed t code) q of
        Some (Inr ([t'], q')) \<Rightarrow> fail_repeatedly n code t' q'
      | other \<Rightarrow> other)"

subsection \<open>Sample inputs\<close>

definition sample_executor :: executor where
  "sample_executor =
     \<lparr>retries = 3, split_on_exhaustion = True, chunks_per_accum = 2, chunksize = 8\<rparr>"

definition sample_queue :: queue where
  "sample_queue =
     \<lparr>executor = sample_executor, current_chunksize = 4, stats_coffea = Map.empty,
      coffea_stats = [''events_processed'' \<mapsto> 10, ''events_total'' \<mapsto> 10],
      tasks_to_accumulate = [], submitted = [], tasks_counter = 7, early_terminate = False,
      accumulating_total = 1\<rparr>"

definition sample_item :: WorkItem where
  "sample_item =
     \<lparr>dataset = ''data'', filename = ''events.root'', treename = ''Events'',
      entrystart = 0, entrystop = 10, fileuuid = ''uuid'', usermeta = []\<rparr>"

definition sample_attrs :: attrs where
  "sample_attrs =
     \<lparr>itemid = ''p_3'', task_size = 10, retries_to_go = 3, result = None,
      fin_size = 0, fout_size = 0\<rparr>"

definition sample_task :: task where
  "sample_task = ProcCoffeaWQTask sample_attrs sample_item"

subsection \<open>Submitting accumulation tasks\<close>

text \<open>
  \<^verbatim>\<open>_group_lst(lst, n)\<close> is
  \<^verbatim>\<open>(lst[i : i + n] for i in range(0, len(lst), n))\<close>. \<^verbatim>\<open>range\<close> raises
  \<^verbatim>\<open>ValueError\<close> for a step of 0 and is empty for a negative step.
\<close>

definition range_step :: "nat \<Rightarrow> nat \<Rightarrow> nat list" where
  "range_step len n = map (\<lambda>j. j * n) [0..<(len + n - 1) div n]"

definition group_lst :: "'a list \<Rightarrow> int \<Rightarrow> py_error + 'a list list" where
  "group_lst lst n =
     (if n = 0 then Inl ValueError
      else if n < 0 then Inr []
      else Inr (map (\<lambda>i. take (nat n) (drop i lst)) (range_step (length lst) (nat n))))"

fun is_Accum :: "task \<Rightarrow> bool" where
  "is_Accum (AccumCoffeaWQTask a ts) = True"
| "is_Accum t = False"

text \<open>
  The loop of lines 366 to 385 over the groups. A group that is too small ends the
  loop and becomes the pending list (line 372). Any other group becomes an
  accumulation task, which is submitted. The total of the progress bar is then
  recomputed from \<^verbatim>\<open>stats.get("events_total")\<close>, the number of accumulation tasks
  submitted so far and \<^verbatim>\<open>stats.get("events_done")\<close>; the division raises
  \<^verbatim>\<open>ZeroDivisionError\<close> when the latter is 0. Writing the lineage log is not
  modelled. When the groups run out the loop ends and nothing is assigned to the
  pending list.
\<close>

fun accum_loop :: "queue \<Rightarrow> bool \<Rightarrow> task list list \<Rightarrow> py_error option \<times> queue" where
  "accum_loop q force [] = (None, q)"
| "accum_loop q force (next_to_accum # groups) =
     (if int (length next_to_accum) < 2
         \<or> (int (length next_to_accum) < chunks_per_accum (executor q) \<and> \<not> force) then
        (None, q\<lparr>tasks_to_accumulate := next_to_accum\<rparr>)
      else
        let (accum_task, q) = new_AccumCoffeaWQTask q next_to_accum None;
            q = submit q accum_task;
            acc_sub = int (length (filter is_Accum (submitted q)));
            (events_total, stats) = Stats_get (coffea_stats q) ''events_total'' ();
            (events_done, stats) = Stats_get stats ''events_done'' ();
            q = q\<lparr>coffea_stats := stats\<rparr>
        in if events_done = 0 then (Some ZeroDivisionError, q)
           else
             accum_loop
               (q\<lparr>accumulating_total :=
                    \<lceil>1 + real_of_int (events_total * acc_sub) / real_of_int events_done\<rceil>\<rparr>)
               force groups)"

text \<open>
  \<^verbatim>\<open>CoffeaWQ._submit_accum_tasks\<close>. The result pairs the exception that ended the
  call, if any, with the state of the queue at that point. \<^verbatim>\<open>list.sort\<close> is
  stable, as \<open>sort_key\<close> is.
\<close>

definition submit_accum_tasks :: "queue \<Rightarrow> py_error option \<times> queue" where
  "submit_accum_tasks q =
     (let chunks = chunks_per_accum (executor q);
          (force, stats) = force_flag (coffea_stats q) (early_terminate q);
          q = q\<lparr>coffea_stats := stats\<rparr>
      in if int (length (tasks_to_accumulate q)) < 2 * chunks - 1 \<and> \<not> force then (None, q)
         else
           let q = q\<lparr>tasks_to_accumulate :=
                      sort_key (\<lambda>t. fout_size (attrs_of t)) (tasks_to_accumulate q)\<rparr>
           in case group_lst (tasks_to_accumulate q) chunks of
                Inl e \<Rightarrow> (Some e, q)
              | Inr groups \<Rightarrow> accum_loop q force groups)"

text \<open>
  Sample state: ten events in all, and two processing tasks of five events each that
  have completed and wait for accumulation.
\<close>

definition done1 :: task where
  "done1 =
     ProcCoffeaWQTask
       \<lparr>itemid = ''p_0'', task_size = 5, retries_to_go = 3, result = Some 0,
        fin_size = 0, fout_size = 1\<rparr>
       (sample_item\<lparr>entrystart := 0, entrystop := 5\<rparr>)"

definition done2 :: task where
  "done2 =
     ProcCoffeaWQTask
       \<lparr>itemid = ''p_1'', task_size = 5, retries_to_go = 3, result = Some 0,
        fin_size = 0, fout_size = 2\<rparr>
       (sample_item\<lparr>entrystart := 5, entrystop := 10\<rparr>)"

definition pending_queue :: queue where
  "pending_queue =
     sample_queue\<lparr>tasks_to_accumulate := [done1, done2], tasks_counter := 2\<rparr>"

text \<open>The tasks an accumulation task merges; other tasks merge none.\<close>

fun children_of :: "task \<Rightarrow> task list" where
  "children_of (AccumCoffeaWQTask a ts) = ts"
| "children_of t = []"

text \<open>
  A task that completed with success: \<^verbatim>\<open>wait\<close> records the size of its output
  (lines 152 and 153) and \<^verbatim>\<open>_process_events\<close> appends it to the pending list
  (line 330).
\<close>

definition task_succeeded :: "queue \<Rightarrow> task \<Rightarrow> real \<Rightarrow> queue" where
  "task_succeeded q t out_size =
     q\<lparr>tasks_to_accumulate :=
         tasks_to_accumulate q
           @ [with_attrs t ((attrs_of t)\<lparr>result := Some 0, fout_size := out_size\<rparr>)]\<rparr>"

text \<open>The sample state with the counter \<open>events_done\<close> present.\<close>

definition counted_queue :: queue where
  "counted_queue =
     pending_queue\<lparr>coffea_stats := (coffea_stats pending_queue)(''events_done'' \<mapsto> 10)\<rparr>"

section \<open>Properties\<close>

subsection \<open>Stats\<close>

lemma setdefault_present: "d k = Some v \<Longrightarrow> setdefault d k x = (v, d)"
  by (simp add: setdefault_def)

lemma setdefault_absent: "d k = None \<Longrightarrow> setdefault d k x = (x, d(k \<mapsto> x))"
  by (simp add: setdefault_def)

lemma Stats_get_twice:
  "Stats_get (snd (Stats_get s k d)) k d' = (fst (Stats_get s k d), snd (Stats_get s k d))"
  by (simp add: Stats_get_def setdefault_def split: option.splits)

lemma Stats_get_other:
  "k \<noteq> k' \<Longrightarrow> fst (Stats_get (snd (Stats_get s k d)) k' d') = fst (Stats_get s k' d')"
  by (simp add: Stats_get_def setdefault_def split: option.splits)

text \<open>
  C10. \<open>Stats_get s k d\<close> returns the stored value and leaves the mapping alone when
  \<open>k\<close> is present. When \<open>k\<close> is absent it returns 0 whatever \<open>d\<close> is, and the
  mapping afterwards has the entry \<open>k \<mapsto> 0\<close>.
\<close>

theorem Stats_get_behaviour:
  fixes s :: "int Stats"
  shows "(\<forall>v. s k = Some v \<longrightarrow> Stats_get s k d = (v, s))
       \<and> (s k = None \<longrightarrow> Stats_get s k d = (0, s(k \<mapsto> 0)))"
  by (simp add: Stats_get_def setdefault_def)

theorem Stats_get_behaviour_witness:
  "Stats_get [''events_total'' \<mapsto> (7::int)] ''events_total'' (5::int)
     = (7, [''events_total'' \<mapsto> 7])
   \<and> Stats_get (Map.empty :: int Stats) ''events_done'' (5::int)
     = (0, [''events_done'' \<mapsto> 0])"
  using Stats_get_behaviour [of "[''events_total'' \<mapsto> (7::int)]" "''events_total''" "5::int"]
        Stats_get_behaviour [of "Map.empty :: int Stats" "''events_done''" "5::int"]
  by simp

subsection \<open>Force flush\<close>

text \<open>
  C8. The flag that \<^verbatim>\<open>_submit_accum_tasks\<close> computes equals
  \<open>(events_processed \<ge> events_total) \<or> early_terminate\<close>, for all counter values
  (a missing counter reading as 0) and both states of the cancellation flag.
\<close>

theorem force_flag_refines_spec:
  "fst (force_flag stats cancelled)
     = force_flush_spec (counter stats ''events_processed'') (counter stats ''events_total'')
         cancelled"
  by (auto simp add: force_flag_def force_flush_spec_def counter_def Stats_get_def
        setdefault_def Let_def split: option.splits prod.splits)

subsection \<open>Power-of-two rounding\<close>

lemma floor_to_pow2_bounds:
  assumes "1 \<le> x"
  shows "real_of_int (floor_to_pow2 x) \<le> x" and "x < 2 * real_of_int (floor_to_pow2 x)"
proof -
  define k where "k = nat \<lfloor>log 2 x\<rfloor>"
  have l0: "0 \<le> log 2 x" using assms by simp
  then have kf: "real k = of_int \<lfloor>log 2 x\<rfloor>" by (simp add: k_def)
  have v: "floor_to_pow2 x = 2 ^ k" using assms by (simp add: floor_to_pow2_def k_def)
  have xpos: "0 < x" using assms by simp
  have "(2::real) ^ k = 2 powr real k" by (simp add: powr_realpow)
  also have "\<dots> \<le> 2 powr log 2 x" by (simp add: kf)
  also have "\<dots> = x" using xpos by simp
  finally show "real_of_int (floor_to_pow2 x) \<le> x" by (simp add: v)
  have "x = 2 powr log 2 x" using xpos by simp
  also have "\<dots> < 2 powr (real k + 1)"
  proof -
    have "log 2 x < real k + 1" by (simp add: kf)
    then show ?thesis by simp
  qed
  also have "\<dots> = 2 * 2 ^ k" by (simp add: powr_add powr_realpow)
  finally show "x < 2 * real_of_int (floor_to_pow2 x)" by (simp add: v)
qed

lemma floor_to_pow2_is_pow2: "\<exists>k. floor_to_pow2 x = 2 ^ k"
proof (cases "x < 1")
  case True
  then have "floor_to_pow2 x = 2 ^ 0" by (simp add: floor_to_pow2_def)
  then show ?thesis by blast
next
  case False
  then show ?thesis by (auto simp add: floor_to_pow2_def)
qed

lemma floor_to_pow2_pos: "1 \<le> floor_to_pow2 x"
  by (simp add: floor_to_pow2_def)

lemma floor_to_pow2_greatest:
  assumes "1 \<le> x" and "(2::real) ^ j \<le> x"
  shows "(2::int) ^ j \<le> floor_to_pow2 x"
proof -
  obtain k where k: "floor_to_pow2 x = 2 ^ k" using floor_to_pow2_is_pow2 by blast
  have "(2::real) ^ j < 2 * 2 ^ k"
    using floor_to_pow2_bounds(2) [OF assms(1)] assms(2) by (simp add: k)
  then have "(2::real) ^ j < 2 ^ Suc k" by simp
  then have "j < Suc k" by (rule power_less_imp_less_exp [rotated]) simp
  then have "j \<le> k" by simp
  then have "(2::int) ^ j \<le> 2 ^ k" by (simp add: power_increasing)
  then show ?thesis by (simp add: k)
qed



subsection \<open>The estimator's fallback\<close>

lemma round_half_even_le:
  assumes "x \<le> of_int m"
  shows "round_half_even x \<le> m"
proof -
  have f: "\<lfloor>x\<rfloor> \<le> m" using assms by (simp add: floor_le_iff)
  show ?thesis
  proof (cases "x - of_int \<lfloor>x\<rfloor> < 1 / 2")
    case True
    then show ?thesis using f by (simp add: round_half_even_def Let_def)
  next
    case False
    then have "of_int \<lfloor>x\<rfloor> < x" by simp
    then have "of_int \<lfloor>x\<rfloor> < (of_int m :: real)" using assms by linarith
    then have "\<lfloor>x\<rfloor> < m" by simp
    then show ?thesis by (simp add: round_half_even_def Let_def)
  qed
qed

lemma quantile_nearest_in_set:
  assumes "a \<noteq> []" and "0 \<le> q" and "q \<le> 1"
  shows "quantile_nearest a q \<in> set a"
proof -
  let ?n = "length a"
  have npos: "0 < ?n" using assms(1) by simp
  have "(real ?n - 1) * q \<le> (real ?n - 1) * 1"
    using assms(2,3) npos by (intro mult_left_mono) (simp_all add: Suc_leI)
  also have "\<dots> = of_int (int ?n - 1)" using npos by simp
  finally have "round_half_even ((real ?n - 1) * q) \<le> int ?n - 1"
    by (rule round_half_even_le)
  then have "nat (round_half_even ((real ?n - 1) * q)) < ?n"
    using npos by arith
  then have "nat (round_half_even ((real ?n - 1) * q)) < length (sort a)"
    by simp
  then have "sort a ! nat (round_half_even ((real ?n - 1) * q)) \<in> set (sort a)"
    by (rule nth_mem)
  then show ?thesis by (simp add: quantile_nearest_def)
qed

lemma rates_nonneg:
  assumes "\<forall>p\<in>set pairs. 0 \<le> snd p" and "r \<in> set (rates pairs)"
  shows "0 \<le> r"
  using assms by (auto simp add: rates_def)

lemma median_rate_nonneg:
  assumes "pairs \<noteq> []" and "\<forall>p\<in>set pairs. 0 \<le> snd p"
  shows "0 \<le> median_rate pairs"
proof -
  have "rates pairs \<noteq> []" using assms(1) by (simp add: rates_def)
  then have "median_rate pairs \<in> set (rates pairs)"
    unfolding median_rate_def by (rule quantile_nearest_in_set) simp_all
  then show ?thesis using assms(2) rates_nonneg by blast
qed

lemma checked_fit_rejected: "fit_rejected fit \<Longrightarrow> checked_fit med fit = (med, 0)"
  by (induction fit rule: fit_rejected.induct) auto

text \<open>
  C6 (amended). For every target \<open>T\<close> and every non-empty list of pairs whose first
  resource reading is not negative, if the regression over the filtered pairs raises,
  gives a NaN, a negative slope or a positive intercept, then
  \<open>compute_chunksize_target\<close> returns \<open>median_rate * T + 0\<close>, the median rate being the
  50th percentile (nearest rank) of \<open>events / max 1 resource\<close>. When moreover
  \<open>T \<ge> 0\<close> and no event count is negative, that candidate is not negative.
\<close>

theorem fallback_to_median_rate:
  assumes "pairs \<noteq> []" and "0 \<le> fst (hd pairs)" and "fit_rejected (fit_of pairs)"
  shows "compute_chunksize_target T pairs = Some (median_rate pairs * T + 0)
       \<and> (0 \<le> T \<and> (\<forall>p\<in>set pairs. 0 \<le> snd p) \<longrightarrow> 0 \<le> median_rate pairs * T + 0)"
proof -
  obtain p ps where ps: "pairs = p # ps" using assms(1) by (cases pairs) auto
  have "compute_chunksize_target T pairs = Some (median_rate pairs * T + 0)"
    using assms(2,3) unfolding ps
    by (simp add: compute_chunksize_target_def median_rate_def checked_fit_rejected Let_def)
  moreover have "0 \<le> median_rate pairs * T + 0" if "0 \<le> T" "\<forall>p\<in>set pairs. 0 \<le> snd p"
    using median_rate_nonneg [OF assms(1) that(2)] that(1) by simp
  ultimately show ?thesis by blast
qed

theorem fallback_to_median_rate_witness:
  "compute_chunksize_target 60 [(1, 4), (2, 2)] = Some 60"
proof -
  have r: "fit_of [(1, 4), (2, 2)] = Inr (Num (- 2), Num 6)"
    by (simp add: fit_of_def pairs_filtered_def rates_def quantile_nearest_def
          round_half_even_def linregress_def mean_def Let_def)
  have m: "median_rate [(1, 4), (2, 2)] = 1"
    by (simp add: median_rate_def rates_def quantile_nearest_def round_half_even_def)
  show ?thesis
    using fallback_to_median_rate [of "[(1, 4), (2, 2)]" 60] by (simp add: r m)
qed

text \<open>
  C6 as stated fails in two places. For a negative target the fallback candidate is
  negative: the reports \<open>(1, 4)\<close> and \<open>(2, 2)\<close> have a fitted slope of \<open>-2\<close>, so
  the fallback applies, and the candidate for \<open>T = -1\<close> is \<open>-1\<close>. And where the first
  resource reading is negative the function returns \<^verbatim>\<open>None\<close> at line 1156,
  whatever the regression over the data would give.
\<close>

theorem negative_target_counterexample:
  "fit_rejected (fit_of [(1, 4), (2, 2)])
   \<and> compute_chunksize_target (- 1) [(1, 4), (2, 2)] = Some (- 1)
   \<and> fit_rejected (fit_of [(- 1, 5), (2, 3)])
   \<and> compute_chunksize_target 60 [(- 1, 5), (2, 3)] = None"
  by (simp add: compute_chunksize_target_def fit_of_def pairs_filtered_def rates_def
        quantile_nearest_def round_half_even_def linregress_def mean_def Let_def)

subsection \<open>The new chunk size\<close>

lemma floor_to_pow2_eqI:
  assumes "(2::real) ^ k \<le> x" and "x < 2 ^ Suc k"
  shows "floor_to_pow2 x = 2 ^ k"
proof -
  have "(1::real) \<le> 2 ^ k" by simp
  then have x1: "1 \<le> x" using assms(1) by linarith
  obtain m where m: "floor_to_pow2 x = 2 ^ m" using floor_to_pow2_is_pow2 by blast
  have "(2::int) ^ k \<le> 2 ^ m"
    using floor_to_pow2_greatest [OF x1 assms(1)] by (simp add: m)
  then have km: "k \<le> m" by (rule power_le_imp_le_exp [rotated]) simp
  have "(2::real) ^ m \<le> x" using floor_to_pow2_bounds(1) [OF x1] by (simp add: m)
  then have "(2::real) ^ m < 2 ^ Suc k" using assms(2) by linarith
  then have "m < Suc k" by (rule power_less_imp_less_exp [rotated]) simp
  then show ?thesis using km by (simp add: m)
qed

lemma py_min_Min:
  assumes "xs \<noteq> []"
  shows "py_min xs = Min (set xs)"
proof (cases xs)
  case Nil
  then show ?thesis using assms by simp
next
  case (Cons a list)
  have "Min (set (a # list)) = fold min list a" by (rule Min.set_eq_fold)
  then show ?thesis by (simp add: py_min_def Cons)
qed

text \<open>
  Where the dict has a \<open>memory\<close> key, \<open>compute_chunksize\<close> returns the minimum of the
  candidates that are not zero, or the base chunk size when there is none, rounded by
  \<open>floor_to_pow2\<close>.
\<close>

lemma compute_chunksize_with_memory_key:
  assumes "rt ''memory'' = Some tm" and "1 < length reports"
  defines "tt \<equiv> (case rt ''wall_time'' of None \<Rightarrow> None | Some v \<Rightarrow> v)"
  defines "cands \<equiv> candidate_sizes
     [estimate tt (map (\<lambda>r. (wall_time r, events_count r)) reports),
      estimate tm (map (\<lambda>r. (memory r, events_count r)) reports)]"
  shows "compute_chunksize base (Some rt) reports =
     Inr (floor_to_pow2 (if cands \<noteq> [] then Min (set cands) else real_of_int base))"
  using assms(1,2) by (simp add: compute_chunksize_def cands_def tt_def Let_def py_min_Min)

lemma compute_chunksize_few_reports:
  assumes "length reports < 2"
  shows "compute_chunksize base rts reports = Inr (floor_to_pow2 (real_of_int base))"
  using assms by (simp add: compute_chunksize_def candidate_sizes_def split: option.splits)

text \<open>
  C3. On a dict with a wall-time budget and no \<open>memory\<close> key, and three task
  reports, \<open>compute_chunksize\<close> returns no chunk size: line 1133 raises
  \<^verbatim>\<open>KeyError\<close>.
\<close>

theorem compute_chunksize_missing_memory_key:
  "compute_chunksize 65536 (Some [''wall_time'' \<mapsto> Some 120])
     [\<lparr>events_count = 1000, wall_time = 30, memory = 500\<rparr>,
      \<lparr>events_count = 2000, wall_time = 55, memory = 510\<rparr>,
      \<lparr>events_count = 4000, wall_time = 100, memory = 530\<rparr>]
   = Inl (KeyError ''memory'')"
  by (simp add: compute_chunksize_def)

text \<open>
  C5. With a wall-time budget and no \<open>memory\<close> key, and two task reports,
  \<open>compute_chunksize\<close> raises \<^verbatim>\<open>KeyError\<close> at line 1133 instead of returning.
\<close>

theorem compute_chunksize_wall_time_only:
  "compute_chunksize 1024 (Some [''wall_time'' \<mapsto> Some 60])
     [\<lparr>events_count = 100, wall_time = 10, memory = 200\<rparr>,
      \<lparr>events_count = 200, wall_time = 20, memory = 250\<rparr>]
   = Inl (KeyError ''memory'')"
  by (simp add: compute_chunksize_def)

text \<open>The sibling case, a memory budget and no \<open>wall_time\<close> key, returns.\<close>

lemma compute_chunksize_memory_only:
  "compute_chunksize 1024 (Some [''memory'' \<mapsto> Some 400])
     [\<lparr>events_count = 100, wall_time = 10, memory = 100\<rparr>,
      \<lparr>events_count = 200, wall_time = 20, memory = 200\<rparr>]
   = Inr 256"
proof -
  have "compute_chunksize_target 400 [(100, 100), (200, 200)] = Some 400"
    by (simp add: compute_chunksize_target_def fit_of_def pairs_filtered_def rates_def
          quantile_nearest_def round_half_even_def linregress_def mean_def Let_def)
  moreover have "floor_to_pow2 400 = 2 ^ 8"
    by (rule floor_to_pow2_eqI) simp_all
  ultimately show ?thesis
    by (simp add: compute_chunksize_def estimate_def candidate_sizes_def py_min_def)
qed



subsection \<open>Splitting\<close>

lemma new_Proc_facts:
  "executor (snd (new_ProcCoffeaWQTask q w g)) = executor q"
  "range_of (fst (new_ProcCoffeaWQTask q w g)) = (entrystart w, entrystop w)"
  "is_Proc (fst (new_ProcCoffeaWQTask q w g))"
  "retries_to_go (attrs_of (fst (new_ProcCoffeaWQTask q w g))) = retries (executor q)"
  "len_task (fst (new_ProcCoffeaWQTask q w g)) = entrystop w - entrystart w"
  by (simp_all add: new_ProcCoffeaWQTask_def count_task_def init_attrs_def len_task_def
        len_WorkItem_def)

declare chunk_ranges.simps [simp del]

lemma chunk_ranges_Nil: "\<not> (a < b \<and> 0 < k) \<Longrightarrow> chunk_ranges a b k = []"
  by (subst chunk_ranges.simps) auto

lemma chunk_ranges_Cons:
  "a < b \<Longrightarrow> 0 < k \<Longrightarrow>
     chunk_ranges a b k = (a, min b (a + k)) # chunk_ranges (min b (a + k)) b k"
  by (subst chunk_ranges.simps) simp

lemma split_loop_returns:
  assumes "0 < k"
  shows "\<exists>ts q'. split_loop q it k start acc = Some (acc @ ts, q')
           \<and> executor q' = executor q
           \<and> map range_of ts = chunk_ranges start (entrystop it) k
           \<and> (\<forall>t \<in> set ts. is_Proc t \<and> retries_to_go (attrs_of t) = retries (executor q)
                  \<and> len_task t = snd (range_of t) - fst (range_of t))"
proof (induction "nat (entrystop it - start)" arbitrary: start q acc rule: less_induct)
  case less
  show ?case
  proof (cases "start < entrystop it")
    case False
    then show ?thesis
      by (subst split_loop.simps) (simp add: chunk_ranges_Nil)
  next
    case True
    define stop where "stop = min (entrystop it) (start + k)"
    define w where "w = it\<lparr>entrystart := start, entrystop := stop\<rparr>"
    define t where "t = fst (new_ProcCoffeaWQTask q w None)"
    define q1 where "q1 = snd (new_ProcCoffeaWQTask q w None)"
    have dec: "nat (entrystop it - stop) < nat (entrystop it - start)"
      using True assms by (simp add: stop_def min_def)
    obtain ts q' where
      r: "split_loop q1 it k stop (acc @ [t]) = Some ((acc @ [t]) @ ts, q')"
      and e: "executor q' = executor q1"
      and m: "map range_of ts = chunk_ranges stop (entrystop it) k"
      and a: "\<forall>t \<in> set ts. is_Proc t \<and> retries_to_go (attrs_of t) = retries (executor q1)
                  \<and> len_task t = snd (range_of t) - fst (range_of t)"
      using less [OF dec, of q1 "acc @ [t]"] by blast
    have eq: "executor q1 = executor q" by (simp add: q1_def new_Proc_facts)
    have step: "split_loop q it k start acc = split_loop q1 it k stop (acc @ [t])"
      using True
      by (subst split_loop.simps) (simp add: Let_def stop_def w_def t_def q1_def split_beta)
    have rt: "range_of t = (start, stop)" by (simp add: t_def new_Proc_facts w_def)
    have cr: "chunk_ranges start (entrystop it) k = (start, stop) # chunk_ranges stop (entrystop it) k"
      using True assms by (simp add: chunk_ranges_Cons stop_def)
    have "split_loop q it k start acc = Some (acc @ (t # ts), q')"
      using step r by simp
    moreover have "executor q' = executor q" using e eq by simp
    moreover have "map range_of (t # ts) = chunk_ranges start (entrystop it) k"
      using rt m cr by simp
    moreover have "\<forall>u \<in> set (t # ts). is_Proc u \<and> retries_to_go (attrs_of u) = retries (executor q)
                  \<and> len_task u = snd (range_of u) - fst (range_of u)"
      using a eq rt by (auto simp add: t_def new_Proc_facts w_def)
    ultimately show ?thesis by blast
  qed
qed

lemma chunk_ranges_bounds:
  "(s, e) \<in> set (chunk_ranges a b k) \<Longrightarrow> a \<le> s \<and> s < e \<and> e \<le> b"
proof (induction a b k rule: chunk_ranges.induct)
  case (1 start stop k)
  show ?case
  proof (cases "start < stop \<and> 0 < k")
    case True
    with "1.prems" have "(s, e) = (start, min stop (start + k))
        \<or> (s, e) \<in> set (chunk_ranges (min stop (start + k)) stop k)"
      by (simp add: chunk_ranges_Cons)
    then show ?thesis
    proof
      assume "(s, e) = (start, min stop (start + k))"
      then show ?thesis using True by auto
    next
      assume "(s, e) \<in> set (chunk_ranges (min stop (start + k)) stop k)"
      then have "min stop (start + k) \<le> s \<and> s < e \<and> e \<le> stop"
        using "1.IH" True by blast
      then show ?thesis using True by auto
    qed
  next
    case False
    with "1.prems" show ?thesis by (simp add: chunk_ranges_Nil)
  qed
qed

lemma chunk_ranges_union:
  "a \<le> b \<Longrightarrow> 0 < k \<Longrightarrow> (\<Union>r \<in> set (chunk_ranges a b k). {fst r..<snd r}) = {a..<b}"
proof (induction a b k rule: chunk_ranges.induct)
  case (1 start stop k)
  show ?case
  proof (cases "start < stop")
    case True
    let ?m = "min stop (start + k)"
    have ih: "(\<Union>r \<in> set (chunk_ranges ?m stop k). {fst r..<snd r}) = {?m..<stop}"
      using "1.IH" True "1.prems" by simp
    have "(\<Union>r \<in> set (chunk_ranges start stop k). {fst r..<snd r})
            = {start..<?m} \<union> {?m..<stop}"
      using True "1.prems" ih by (simp add: chunk_ranges_Cons)
    also have "\<dots> = {start..<stop}" using True "1.prems" by auto
    finally show ?thesis .
  next
    case False
    then show ?thesis using "1.prems" by (simp add: chunk_ranges_Nil)
  qed
qed

lemma chunk_ranges_contiguous: "contiguous (chunk_ranges a b k)"
proof (induction a b k rule: chunk_ranges.induct)
  case (1 start stop k)
  show ?case
  proof (cases "start < stop \<and> 0 < k")
    case True
    let ?m = "min stop (start + k)"
    have ih: "contiguous (chunk_ranges ?m stop k)" using "1.IH" True by simp
    show ?thesis
    proof (cases "?m < stop \<and> 0 < k")
      case True2: True
      have "chunk_ranges ?m stop k = (?m, min stop (?m + k)) # chunk_ranges (min stop (?m + k)) stop k"
        using True2 by (simp add: chunk_ranges_Cons)
      then show ?thesis using True ih chunk_ranges_Cons [of start stop k] by simp
    next
      case False
      then have "chunk_ranges ?m stop k = []" by (rule chunk_ranges_Nil)
      then show ?thesis using True chunk_ranges_Cons [of start stop k] by simp
    qed
  next
    case False
    then show ?thesis by (simp add: chunk_ranges_Nil)
  qed
qed

lemma chunk_ranges_disjoint: "pairwise_disjoint (chunk_ranges a b k)"
proof (induction a b k rule: chunk_ranges.induct)
  case (1 start stop k)
  show ?case
  proof (cases "start < stop \<and> 0 < k")
    case True
    let ?m = "min stop (start + k)"
    have ih: "pairwise_disjoint (chunk_ranges ?m stop k)" using "1.IH" True by simp
    have "{start..<?m} \<inter> {fst r'..<snd r'} = {}" if "r' \<in> set (chunk_ranges ?m stop k)" for r'
    proof -
      have "?m \<le> fst r'" using chunk_ranges_bounds [of "fst r'" "snd r'" ?m stop k] that by simp
      then show ?thesis by auto
    qed
    then show ?thesis using True ih chunk_ranges_Cons [of start stop k] by simp
  next
    case False
    then show ?thesis by (simp add: chunk_ranges_Nil)
  qed
qed


lemma chunk_ranges_length:
  "a \<le> b \<Longrightarrow> 0 < k \<Longrightarrow> int (length (chunk_ranges a b k)) = py_ceil_div (b - a) k"
proof (induction a b k rule: chunk_ranges.induct)
  case (1 start stop k)
  have kpos: "0 < real_of_int k" using "1.prems" by simp
  show ?case
  proof (cases "start < stop")
    case False
    then have "stop - start = 0" using "1.prems" by simp
    then show ?thesis using False by (simp add: chunk_ranges_Nil py_ceil_div_def)
  next
    case True
    let ?m = "min stop (start + k)"
    have ih: "int (length (chunk_ranges ?m stop k)) = py_ceil_div (stop - ?m) k"
      using "1.IH" True "1.prems" by simp
    have len: "int (length (chunk_ranges start stop k)) = 1 + py_ceil_div (stop - ?m) k"
      using True "1.prems" ih by (simp add: chunk_ranges_Cons)
    show ?thesis
    proof (cases "stop \<le> start + k")
      case True2: True
      then have m: "?m = stop" by simp
      have "real_of_int (stop - start) / real_of_int k \<le> 1"
        using True2 kpos by simp
      moreover have "0 < real_of_int (stop - start) / real_of_int k"
        using True kpos by simp
      ultimately have "\<lceil>real_of_int (stop - start) / real_of_int k\<rceil> = 1"
        by (intro ceiling_unique) simp_all
      then show ?thesis unfolding len m by (simp add: py_ceil_div_def)
    next
      case False
      then have m: "?m = start + k" by simp
      have "real_of_int (stop - start) / real_of_int k
              = real_of_int (stop - (start + k)) / real_of_int k + 1"
        using kpos by (simp add: field_simps)
      then have "py_ceil_div (stop - start) k = py_ceil_div (stop - (start + k)) k + 1"
        unfolding py_ceil_div_def by (simp only: ceiling_add_one)
      then show ?thesis unfolding len m by simp
    qed
  qed
qed

lemma chunk_ranges_sizes:
  "Suc i < length (chunk_ranges a b k) \<Longrightarrow>
     snd (chunk_ranges a b k ! i) - fst (chunk_ranges a b k ! i) = k"
proof (induction a b k arbitrary: i rule: chunk_ranges.induct)
  case (1 start stop k)
  show ?case
  proof (cases "start < stop \<and> 0 < k")
    case False
    then show ?thesis using "1.prems" by (simp add: chunk_ranges_Nil)
  next
    case True
    let ?m = "min stop (start + k)"
    have c: "chunk_ranges start stop k = (start, ?m) # chunk_ranges ?m stop k"
      using True by (simp add: chunk_ranges_Cons)
    show ?thesis
    proof (cases i)
      case 0
      have "chunk_ranges ?m stop k \<noteq> []" using "1.prems" c 0 by auto
      then have "?m < stop" using chunk_ranges_Nil [of ?m stop k] by auto
      then show ?thesis using c 0 by (simp add: min_def split: if_splits)
    next
      case (Suc j)
      then have "Suc j < length (chunk_ranges ?m stop k)" using "1.prems" c by simp
      then show ?thesis using "1.IH" True c Suc by simp
    qed
  qed
qed

lemma py_ceil_div_pos:
  assumes "1 \<le> T" and "1 \<le> c"
  shows "1 \<le> py_ceil_div T c"
proof -
  have "0 < real_of_int T / real_of_int c" using assms by simp
  then have "0 < py_ceil_div T c" unfolding py_ceil_div_def by (simp only: zero_less_ceiling)
  then show ?thesis by simp
qed

lemma py_ceil_div_ge:
  assumes "0 < c"
  shows "real_of_int T \<le> real_of_int (py_ceil_div T c) * real_of_int c"
proof -
  have "real_of_int T / real_of_int c \<le> real_of_int (py_ceil_div T c)"
    unfolding py_ceil_div_def by (rule le_of_int_ceiling)
  then show ?thesis using assms by (simp add: pos_divide_le_eq)
qed

lemma ceil_of_ceil:
  fixes T c :: int
  assumes "1 \<le> T" and "1 \<le> c"
  shows "py_ceil_div T (py_ceil_div T (py_ceil_div T c)) = py_ceil_div T c"
proof -
  define n where "n = py_ceil_div T c"
  define a where "a = py_ceil_div T n"
  have n1: "1 \<le> n" unfolding n_def using assms by (rule py_ceil_div_pos)
  have a1: "1 \<le> a" unfolding a_def using assms(1) n1 by (rule py_ceil_div_pos)
  have "real_of_int T \<le> real_of_int n * real_of_int c"
    unfolding n_def using assms(2) by (intro py_ceil_div_ge) simp
  then have "real_of_int T / real_of_int n \<le> real_of_int c"
    using n1 by (simp add: pos_divide_le_eq mult.commute)
  then have ac: "a \<le> c" unfolding a_def py_ceil_div_def by (simp only: ceiling_le_iff)
  have "real_of_int T \<le> real_of_int a * real_of_int n"
    unfolding a_def using n1 by (intro py_ceil_div_ge) simp
  then have "real_of_int T / real_of_int a \<le> real_of_int n"
    using a1 by (simp add: pos_divide_le_eq mult.commute)
  then have up: "py_ceil_div T a \<le> n" unfolding py_ceil_div_def by (simp only: ceiling_le_iff)
  have "real_of_int T / real_of_int c \<le> real_of_int T / real_of_int a"
    using assms(1) a1 ac by (intro divide_left_mono) simp_all
  then have "n \<le> py_ceil_div T a" unfolding n_def py_ceil_div_def by (rule ceiling_mono)
  then show ?thesis using up unfolding a_def n_def by simp
qed



text \<open>
  C2 (amended). For a processing task whose work item covers \<open>[a, b)\<close> with
  \<open>b - a \<ge> 2\<close>, and a current chunk size of at least 1, \<open>split\<close> returns
  children whose ranges are contiguous and pairwise disjoint and whose union is
  \<open>[a, b)\<close>. With \<open>c\<close> the current chunk size when that is below \<open>b - a\<close> and
  \<open>\<lceil>(b - a) / 2\<rceil>\<close> otherwise, there are \<open>\<lceil>(b - a) / c\<rceil>\<close> children, and every
  child but the last has \<open>\<lceil>(b - a) / \<lceil>(b - a) / c\<rceil>\<rceil>\<close> events.
\<close>

theorem split_partitions_range:
  assumes "2 \<le> entrystop it - entrystart it" and "1 \<le> current_chunksize q"
  defines "tot \<equiv> entrystop it - entrystart it"
  defines "c \<equiv> (if current_chunksize q < tot then current_chunksize q
                   else \<lceil>real_of_int tot / 2\<rceil>)"
  shows "\<exists>children q'.
           split (ProcCoffeaWQTask a it) q = Some (Inr (children, q'))
         \<and> contiguous (map range_of children)
         \<and> pairwise_disjoint (map range_of children)
         \<and> (\<Union>r \<in> set (map range_of children). {fst r..<snd r}) = {entrystart it..<entrystop it}
         \<and> int (length children) = \<lceil>real_of_int tot / real_of_int c\<rceil>
         \<and> (\<forall>i. Suc i < length children \<longrightarrow>
                len_task (children ! i)
                  = \<lceil>real_of_int tot / real_of_int \<lceil>real_of_int tot / real_of_int c\<rceil>\<rceil>)"
proof -
  have t2: "2 \<le> tot" using assms(1) by (simp add: tot_def)
  have c_eq: "c = (if tot \<le> current_chunksize q then py_ceil_div tot 2 else current_chunksize q)"
    by (simp add: c_def py_ceil_div_def)
  have "1 \<le> py_ceil_div tot 2" using t2 by (intro py_ceil_div_pos) simp_all
  then have c1: "1 \<le> c" using assms(2) by (simp add: c_eq)
  define n where "n = py_ceil_div tot c"
  define k where "k = py_ceil_div tot n"
  have n1: "1 \<le> n" unfolding n_def using t2 c1 by (intro py_ceil_div_pos) simp_all
  have k1: "1 \<le> k" unfolding k_def using t2 n1 by (intro py_ceil_div_pos) simp_all
  define q1 where "q1 = q\<lparr>stats_coffea :=
     Stats_min (Stats_inc (stats_coffea q) ''chunks_split'' 1) ''min_chunksize_after_split'' k\<rparr>"
  have sp: "split (ProcCoffeaWQTask a it) q
              = map_option Inr (split_loop q1 it k (entrystart it) [])"
    using t2 c1 n1
    by (simp add: len_WorkItem_def tot_def [symmetric] c_eq [symmetric] Let_def
          n_def [symmetric] k_def [symmetric] q1_def max_def)
  obtain ts q' where
    l: "split_loop q1 it k (entrystart it) [] = Some ([] @ ts, q')"
    and m: "map range_of ts = chunk_ranges (entrystart it) (entrystop it) k"
    and p: "\<forall>t \<in> set ts. is_Proc t \<and> retries_to_go (attrs_of t) = retries (executor q1)
                  \<and> len_task t = snd (range_of t) - fst (range_of t)"
    using split_loop_returns [of k q1 it "entrystart it" "[]"] k1 by auto
  have le: "entrystart it \<le> entrystop it" using assms(1) by simp
  have kpos: "0 < k" using k1 by simp
  have len: "int (length ts) = n"
  proof -
    have "int (length ts) = int (length (map range_of ts))" by simp
    also have "\<dots> = py_ceil_div tot k"
      unfolding m tot_def using le kpos by (rule chunk_ranges_length)
    also have "\<dots> = n"
      unfolding k_def n_def using t2 c1 by (intro ceil_of_ceil) simp_all
    finally show ?thesis .
  qed
  have sizes: "len_task (ts ! i) = k" if "Suc i < length ts" for i
  proof -
    have i: "i < length ts" using that by simp
    then have "ts ! i \<in> set ts" by simp
    then have "len_task (ts ! i) = snd (range_of (ts ! i)) - fst (range_of (ts ! i))"
      using p by blast
    also have "range_of (ts ! i) = map range_of ts ! i" using i by simp
    also have "snd (map range_of ts ! i) - fst (map range_of ts ! i) = k"
      unfolding m using that chunk_ranges_sizes [of i "entrystart it" "entrystop it" k]
      by (simp add: m [symmetric])
    finally show ?thesis .
  qed
  have "split (ProcCoffeaWQTask a it) q = Some (Inr (ts, q'))" using sp l by simp
  moreover have "contiguous (map range_of ts)" unfolding m by (rule chunk_ranges_contiguous)
  moreover have "pairwise_disjoint (map range_of ts)" unfolding m by (rule chunk_ranges_disjoint)
  moreover have "(\<Union>r \<in> set (map range_of ts). {fst r..<snd r}) = {entrystart it..<entrystop it}"
    unfolding m using le kpos by (rule chunk_ranges_union)
  moreover have "int (length ts) = \<lceil>real_of_int tot / real_of_int c\<rceil>"
    using len by (simp add: n_def py_ceil_div_def)
  moreover have "\<forall>i. Suc i < length ts \<longrightarrow>
        len_task (ts ! i) = \<lceil>real_of_int tot / real_of_int \<lceil>real_of_int tot / real_of_int c\<rceil>\<rceil>"
    using sizes by (simp add: k_def n_def py_ceil_div_def)
  ultimately show ?thesis by blast
qed



lemmas sample_defs = sample_executor_def sample_queue_def sample_item_def sample_task_def
  sample_attrs_def

lemmas ctor_defs = new_ProcCoffeaWQTask_def new_PreProcCoffeaWQTask_def new_AccumCoffeaWQTask_def
  init_attrs_def choose_itemid_def count_task_def len_WorkItem_def

theorem split_partitions_range_witness:
  "\<exists>children q'. split sample_task sample_queue = Some (Inr (children, q'))
      \<and> length children = 3
      \<and> (\<Union>r \<in> set (map range_of children). {fst r..<snd r}) = {0..<10}"
proof -
  have e: "entrystart sample_item = 0" "entrystop sample_item = 10"
    "current_chunksize sample_queue = 4"
    by (simp_all add: sample_defs)
  have h1: "2 \<le> entrystop sample_item - entrystart sample_item" by (simp add: e)
  have h2: "1 \<le> current_chunksize sample_queue" by (simp add: e)
  have c: "\<lceil>(10::real) / 4\<rceil> = 3" by (intro ceiling_unique) simp_all
  obtain children q' where
    r: "split (ProcCoffeaWQTask sample_attrs sample_item) sample_queue = Some (Inr (children, q'))"
    and u: "(\<Union>r \<in> set (map range_of children). {fst r..<snd r})
              = {entrystart sample_item..<entrystop sample_item}"
    and l: "int (length children) =
              \<lceil>real_of_int (entrystop sample_item - entrystart sample_item)
                / real_of_int (if current_chunksize sample_queue
                                   < entrystop sample_item - entrystart sample_item
                               then current_chunksize sample_queue
                               else \<lceil>real_of_int (entrystop sample_item - entrystart sample_item) / 2\<rceil>)\<rceil>"
    using split_partitions_range [OF h1 h2, of sample_attrs] by blast
  have "int (length children) = 3" using l by (simp add: e c)
  then have "length children = 3" by simp
  moreover have "split sample_task sample_queue = Some (Inr (children, q'))"
    using r by (simp only: sample_task_def)
  moreover have "(\<Union>r \<in> set (map range_of children). {fst r..<snd r}) = {0..<10}"
    using u by (simp only: e)
  ultimately show ?thesis by blast
qed

text \<open>
  C2 as stated fails where the current chunk size is not positive. With a chunk size
  of 0, line 805 divides by zero. With a chunk size of \<open>-1\<close> the task of 10 events
  gets one child, and \<open>\<lceil>10 / -1\<rceil>\<close> is \<open>-10\<close>.
\<close>

theorem split_nonpositive_chunksize_counterexample:
  "split sample_task (sample_queue\<lparr>current_chunksize := 0\<rparr>) = Some (Inl ZeroDivisionError)
   \<and> (\<exists>t q'. split sample_task (sample_queue\<lparr>current_chunksize := - 1\<rparr>) = Some (Inr ([t], q')))
   \<and> \<lceil>real_of_int (10 - 0) / real_of_int (- 1)\<rceil> = (- 10 :: int)"
  by (simp add: sample_defs ctor_defs py_ceil_div_def Let_def split_loop.simps
        Stats_inc_def Stats_min_def)



subsection \<open>Retry budgets\<close>


lemma attrs_of_with_attrs [simp]: "attrs_of (with_attrs t b) = b"
  by (cases t) simp_all

lemma with_attrs_with_attrs [simp]: "with_attrs (with_attrs t b) c = with_attrs t c"
  by (cases t) simp_all

lemma clone_retries: "retries_to_go (attrs_of (fst (clone t q))) = retries (executor q)"
  by (cases t) (simp_all add: ctor_defs)

lemma clone_executor: "executor (snd (clone t q)) = executor q"
  by (cases t) (simp_all add: ctor_defs)

lemma clone_itemid:
  "itemid (attrs_of t) \<noteq> [] \<Longrightarrow> itemid (attrs_of (fst (clone t q))) = itemid (attrs_of t)"
  by (cases t) (simp_all add: ctor_defs)

lemma clone_payload: "\<exists>b. fst (clone t q) = with_attrs t b"
  by (cases t) (simp_all add: ctor_defs)

lemma resubmit_transient:
  assumes "1 \<le> retries_to_go (attrs_of t)" and "split_on_exhaustion (executor q)"
    and "result (attrs_of t) \<noteq> Some WORK_QUEUE_RESULT_RESOURCE_EXHAUSTION"
  shows "resubmit t q =
     Some (Inr ([with_attrs (fst (clone t q))
                   ((attrs_of (fst (clone t q)))\<lparr>retries_to_go := retries_to_go (attrs_of t) - 1\<rparr>)],
                submit (snd (clone t q))
                  (with_attrs (fst (clone t q))
                   ((attrs_of (fst (clone t q)))\<lparr>retries_to_go := retries_to_go (attrs_of t) - 1\<rparr>))))"
  using assms by (simp add: resubmit_def Let_def split_beta)

lemma resubmit_exhausted:
  assumes "retries_to_go (attrs_of t) < 1 \<or> \<not> split_on_exhaustion (executor q)"
  shows "resubmit t q = Some (Inl (RuntimeError
          (''item '' @ itemid (attrs_of t) @ '' failed permanently. No more retries left.'')))"
  using assms by (auto simp add: resubmit_def)

text \<open>One transient failure of a task that has retries left.\<close>

lemma resubmit_completed:
  assumes "1 \<le> retries_to_go (attrs_of t)" and "split_on_exhaustion (executor q)"
    and "code \<noteq> WORK_QUEUE_RESULT_RESOURCE_EXHAUSTION"
  shows "\<exists>t1 q1. resubmit (completed t code) q = Some (Inr ([t1], q1))
           \<and> retries_to_go (attrs_of t1) = retries_to_go (attrs_of t) - 1
           \<and> executor q1 = executor q
           \<and> (\<exists>b. t1 = with_attrs t b)
           \<and> (itemid (attrs_of t) \<noteq> [] \<longrightarrow> itemid (attrs_of t1) = itemid (attrs_of t))
           \<and> submitted q1 = submitted q @ [t1]"
proof -
  let ?c = "completed t code"
  let ?t1 = "with_attrs (fst (clone ?c q))
     ((attrs_of (fst (clone ?c q)))\<lparr>retries_to_go := retries_to_go (attrs_of ?c) - 1\<rparr>)"
  let ?q1 = "submit (snd (clone ?c q)) ?t1"
  have a: "attrs_of ?c = (attrs_of t)\<lparr>result := Some code\<rparr>" by (simp add: completed_def)
  have r: "resubmit ?c q = Some (Inr ([?t1], ?q1))"
    using assms by (intro resubmit_transient) (simp_all add: a)
  obtain b where b: "fst (clone ?c q) = with_attrs ?c b" using clone_payload by blast
  have "?t1 = with_attrs t
      ((attrs_of (fst (clone ?c q)))\<lparr>retries_to_go := retries_to_go (attrs_of ?c) - 1\<rparr>)"
    by (subst b) (simp add: completed_def)
  then have "\<exists>b. ?t1 = with_attrs t b" by blast
  moreover have "itemid (attrs_of t) \<noteq> [] \<longrightarrow> itemid (attrs_of ?t1) = itemid (attrs_of t)"
    using clone_itemid [of ?c q] by (simp add: a)
  moreover have "submitted ?q1 = submitted q @ [?t1]"
    by (cases t) (simp_all add: submit_def completed_def ctor_defs)
  moreover have "executor ?q1 = executor q" by (simp add: submit_def clone_executor)
  moreover have "retries_to_go (attrs_of ?t1) = retries_to_go (attrs_of t) - 1" by (simp add: a)
  ultimately show ?thesis using r by blast
qed

lemma fail_repeatedly_within_budget:
  assumes "split_on_exhaustion (executor q)"
    and "code \<noteq> WORK_QUEUE_RESULT_RESOURCE_EXHAUSTION"
    and "int n \<le> retries_to_go (attrs_of t)"
  shows "\<exists>t' q'. fail_repeatedly n code t q = Some (Inr ([t'], q'))
           \<and> retries_to_go (attrs_of t') = retries_to_go (attrs_of t) - int n
           \<and> executor q' = executor q
           \<and> (\<exists>b. t' = with_attrs t b)
           \<and> (itemid (attrs_of t) \<noteq> [] \<longrightarrow> itemid (attrs_of t') = itemid (attrs_of t))
           \<and> (0 < n \<longrightarrow> submitted q' \<noteq> [] \<and> last (submitted q') = t')"
  using assms
proof (induction n arbitrary: t q)
  case 0
  have "t = with_attrs t (attrs_of t)" by (cases t) simp_all
  then have "\<exists>b. t = with_attrs t b" by blast
  then show ?case by simp
next
  case (Suc n)
  have "1 \<le> retries_to_go (attrs_of t)" using Suc.prems(3) by simp
  then obtain t1 q1 where
    r: "resubmit (completed t code) q = Some (Inr ([t1], q1))"
    and b: "retries_to_go (attrs_of t1) = retries_to_go (attrs_of t) - 1"
    and e: "executor q1 = executor q"
    and p: "\<exists>b. t1 = with_attrs t b"
    and i: "itemid (attrs_of t) \<noteq> [] \<longrightarrow> itemid (attrs_of t1) = itemid (attrs_of t)"
    and s: "submitted q1 = submitted q @ [t1]"
    using resubmit_completed [OF _ Suc.prems(1,2), of t] by blast
  have "int n \<le> retries_to_go (attrs_of t1)" using Suc.prems(3) b by simp
  then obtain t' q' where
    f: "fail_repeatedly n code t1 q1 = Some (Inr ([t'], q'))"
    and b': "retries_to_go (attrs_of t') = retries_to_go (attrs_of t1) - int n"
    and e': "executor q' = executor q1"
    and p': "\<exists>b. t' = with_attrs t1 b"
    and i': "itemid (attrs_of t1) \<noteq> [] \<longrightarrow> itemid (attrs_of t') = itemid (attrs_of t1)"
    and s': "0 < n \<longrightarrow> submitted q' \<noteq> [] \<and> last (submitted q') = t'"
    using Suc.IH [of q1 t1] Suc.prems(1,2) e by auto
  have step: "fail_repeatedly (Suc n) code t q = fail_repeatedly n code t1 q1"
    using r by simp
  have last: "submitted q' \<noteq> [] \<and> last (submitted q') = t'"
  proof (cases n)
    case 0
    then show ?thesis using f s by simp
  next
    case (Suc m)
    then show ?thesis using s' by simp
  qed
  have "\<exists>b. t' = with_attrs t b" using p p' by auto
  moreover have "itemid (attrs_of t) \<noteq> [] \<longrightarrow> itemid (attrs_of t') = itemid (attrs_of t)"
    using i i' by auto
  moreover have "retries_to_go (attrs_of t') = retries_to_go (attrs_of t) - int (Suc n)"
    using b b' by simp
  ultimately show ?case using step f e e' last by simp
qed

lemma fail_repeatedly_beyond_budget:
  assumes "split_on_exhaustion (executor q)"
    and "code \<noteq> WORK_QUEUE_RESULT_RESOURCE_EXHAUSTION"
    and "retries_to_go (attrs_of t) = int r"
  shows "\<exists>t' q'. fail_repeatedly r code t q = Some (Inr ([t'], q'))
           \<and> fail_repeatedly (Suc r) code t q = Some (Inl (RuntimeError
                (''item '' @ itemid (attrs_of t') @ '' failed permanently. No more retries left.'')))"
  using assms
proof (induction r arbitrary: t q)
  case 0
  have "retries_to_go (attrs_of (completed t code)) < 1" using 0 by (simp add: completed_def)
  then have "resubmit (completed t code) q = Some (Inl (RuntimeError
      (''item '' @ itemid (attrs_of (completed t code)) @ '' failed permanently. No more retries left.'')))"
    by (intro resubmit_exhausted) simp
  then show ?case by (simp add: completed_def)
next
  case (Suc r)
  have "1 \<le> retries_to_go (attrs_of t)" using Suc.prems(3) by simp
  then obtain t1 q1 where
    r: "resubmit (completed t code) q = Some (Inr ([t1], q1))"
    and b: "retries_to_go (attrs_of t1) = retries_to_go (attrs_of t) - 1"
    and e: "executor q1 = executor q"
    using resubmit_completed [OF _ Suc.prems(1,2), of t] by blast
  have "retries_to_go (attrs_of t1) = int r" using b Suc.prems(3) by simp
  then obtain t' q' where
    "fail_repeatedly r code t1 q1 = Some (Inr ([t'], q'))"
    "fail_repeatedly (Suc r) code t1 q1 = Some (Inl (RuntimeError
        (''item '' @ itemid (attrs_of t') @ '' failed permanently. No more retries left.'')))"
    using Suc.IH [of q1 t1] Suc.prems(1,2) e by auto
  moreover have "fail_repeatedly (Suc (Suc r)) code t q = fail_repeatedly (Suc r) code t1 q1"
    using r by (simp del: fail_repeatedly.simps add: fail_repeatedly.simps(2) [of "Suc r" code t q])
  moreover have "fail_repeatedly (Suc r) code t q = fail_repeatedly r code t1 q1"
    using r by (simp del: fail_repeatedly.simps add: fail_repeatedly.simps(2) [of r code t q])
  ultimately show ?case by simp
qed



text \<open>
  C4 (amended). Where the executor has \<open>split_on_exhaustion\<close> set, a task with retry
  budget \<open>r\<close> that keeps failing with a result other than resource exhaustion is
  cloned and resubmitted at each of the first \<open>r\<close> failures: after \<open>n \<le> r\<close>
  failures the task in the queue has the original's payload and item id and a budget
  of \<open>r - n\<close>. The failure number \<open>r + 1\<close> raises the error that names the item,
  and no earlier failure raises.
\<close>

theorem retry_budget_exhaustion:
  assumes "split_on_exhaustion (executor q)"
    and "retries_to_go (attrs_of t) = int r"
    and "code \<noteq> WORK_QUEUE_RESULT_RESOURCE_EXHAUSTION"
  shows "(\<forall>n \<le> r. \<exists>t' q'.
            fail_repeatedly n code t q = Some (Inr ([t'], q'))
          \<and> retries_to_go (attrs_of t') = int r - int n
          \<and> (\<exists>b. t' = with_attrs t b)
          \<and> (itemid (attrs_of t) \<noteq> [] \<longrightarrow> itemid (attrs_of t') = itemid (attrs_of t))
          \<and> (0 < n \<longrightarrow> submitted q' \<noteq> [] \<and> last (submitted q') = t'))
       \<and> (\<exists>t' q'.
            fail_repeatedly r code t q = Some (Inr ([t'], q'))
          \<and> fail_repeatedly (Suc r) code t q = Some (Inl (RuntimeError
                (''item '' @ itemid (attrs_of t') @ '' failed permanently. No more retries left.''))))"
proof (intro conjI allI impI)
  fix n assume "n \<le> r"
  then have "int n \<le> retries_to_go (attrs_of t)" using assms(2) by simp
  then show "\<exists>t' q'.
            fail_repeatedly n code t q = Some (Inr ([t'], q'))
          \<and> retries_to_go (attrs_of t') = int r - int n
          \<and> (\<exists>b. t' = with_attrs t b)
          \<and> (itemid (attrs_of t) \<noteq> [] \<longrightarrow> itemid (attrs_of t') = itemid (attrs_of t))
          \<and> (0 < n \<longrightarrow> submitted q' \<noteq> [] \<and> last (submitted q') = t')"
    using fail_repeatedly_within_budget [OF assms(1,3), of n t] assms(2) by auto
next
  show "\<exists>t' q'.
            fail_repeatedly r code t q = Some (Inr ([t'], q'))
          \<and> fail_repeatedly (Suc r) code t q = Some (Inl (RuntimeError
                (''item '' @ itemid (attrs_of t') @ '' failed permanently. No more retries left.'')))"
    by (rule fail_repeatedly_beyond_budget [OF assms(1,3,2)])
qed

theorem retry_budget_exhaustion_witness:
  "fail_repeatedly 4 1 sample_task sample_queue = Some (Inl (RuntimeError
      ''item p_3 failed permanently. No more retries left.''))
   \<and> (\<exists>t' q'. fail_repeatedly 3 1 sample_task sample_queue = Some (Inr ([t'], q'))
         \<and> retries_to_go (attrs_of t') = 0)"
proof -
  have h1: "split_on_exhaustion (executor sample_queue)" by (simp add: sample_defs)
  have h2: "retries_to_go (attrs_of sample_task) = int 3" by (simp add: sample_defs)
  have h3: "(1::int) \<noteq> WORK_QUEUE_RESULT_RESOURCE_EXHAUSTION"
    by (simp add: WORK_QUEUE_RESULT_RESOURCE_EXHAUSTION_def)
  have i: "itemid (attrs_of sample_task) = ''p_3''" by (simp add: sample_defs)
  note th = retry_budget_exhaustion [OF h1 h2 h3]
  from th have a: "\<forall>n \<le> 3. \<exists>t' q'.
            fail_repeatedly n 1 sample_task sample_queue = Some (Inr ([t'], q'))
          \<and> retries_to_go (attrs_of t') = int 3 - int n
          \<and> (\<exists>b. t' = with_attrs sample_task b)
          \<and> (itemid (attrs_of sample_task) \<noteq> [] \<longrightarrow>
                 itemid (attrs_of t') = itemid (attrs_of sample_task))
          \<and> (0 < n \<longrightarrow> submitted q' \<noteq> [] \<and> last (submitted q') = t')"
    by blast
  from th obtain t2 q2 where
    b: "fail_repeatedly 3 1 sample_task sample_queue = Some (Inr ([t2], q2))"
    and c: "fail_repeatedly (Suc 3) 1 sample_task sample_queue = Some (Inl (RuntimeError
                (''item '' @ itemid (attrs_of t2) @ '' failed permanently. No more retries left.'')))"
    by blast
  from a have "\<exists>t' q'.
            fail_repeatedly 3 1 sample_task sample_queue = Some (Inr ([t'], q'))
          \<and> retries_to_go (attrs_of t') = int 3 - int 3
          \<and> (\<exists>b. t' = with_attrs sample_task b)
          \<and> (itemid (attrs_of sample_task) \<noteq> [] \<longrightarrow>
                 itemid (attrs_of t') = itemid (attrs_of sample_task))
          \<and> (0 < (3::nat) \<longrightarrow> submitted q' \<noteq> [] \<and> last (submitted q') = t')"
    by (rule allE [of _ 3]) simp
  then have d: "retries_to_go (attrs_of t2) = 0" "itemid (attrs_of t2) = ''p_3''"
    using b i by auto
  have "Suc 3 = 4" by simp
  then have "fail_repeatedly 4 1 sample_task sample_queue = Some (Inl (RuntimeError
      ''item p_3 failed permanently. No more retries left.''))"
    using c d(2) by simp
  then show ?thesis using b d(1) by blast
qed

text \<open>
  C4 as stated fails where the executor has \<open>split_on_exhaustion\<close> off: the guard of
  line 593 raises at the first failure of a task that has three retries left.
\<close>

theorem resubmit_without_split_counterexample:
  "retries_to_go (attrs_of sample_task) = 3
   \<and> fail_repeatedly 1 1 sample_task
        (sample_queue\<lparr>executor := sample_executor\<lparr>split_on_exhaustion := False\<rparr>\<rparr>)
     = Some (Inl (RuntimeError ''item p_3 failed permanently. No more retries left.''))"
  by (simp add: sample_defs resubmit_def completed_def)





subsection \<open>Accumulation tasks\<close>

lemmas accum_defs = submit_accum_tasks_def force_flag_def Stats_get_def setdefault_def
  group_lst_def range_step_def submit_def new_AccumCoffeaWQTask_def init_attrs_def
  choose_itemid_def count_task_def len_task_def task_succeeded_def

lemmas accum_sample_defs = counted_queue_def pending_queue_def done1_def done2_def sample_defs

text \<open>
  C1. In the sample state \<^verbatim>\<open>_submit_accum_tasks\<close> flushes by force, emits one
  accumulation task for the group of both pending tasks, and leaves both in the
  pending list. Once that accumulation task has completed and joined the list, the
  next call emits a second accumulation task for the same two tasks. Without the
  counter \<open>events_done\<close> the first call raises \<^verbatim>\<open>ZeroDivisionError\<close> after
  it has submitted the accumulation task, the two tasks still pending.
\<close>

theorem emitted_group_stays_pending:
  "fst (submit_accum_tasks counted_queue) = None
   \<and> map children_of (submitted (snd (submit_accum_tasks counted_queue))) = [[done1, done2]]
   \<and> tasks_to_accumulate (snd (submit_accum_tasks counted_queue)) = [done1, done2]
   \<and> map children_of
        (submitted (snd (submit_accum_tasks
           (task_succeeded (snd (submit_accum_tasks counted_queue))
              (hd (submitted (snd (submit_accum_tasks counted_queue)))) 3))))
       = [[done1, done2], [done1, done2]]
   \<and> fst (submit_accum_tasks pending_queue) = Some ZeroDivisionError
   \<and> map children_of (submitted (snd (submit_accum_tasks pending_queue))) = [[done1, done2]]
   \<and> tasks_to_accumulate (snd (submit_accum_tasks pending_queue)) = [done1, done2]"
proof -
  have a: "fst (submit_accum_tasks counted_queue) = None"
    by (simp add: accum_defs accum_sample_defs Let_def)
  have b: "map children_of (submitted (snd (submit_accum_tasks counted_queue))) = [[done1, done2]]"
    by (simp add: accum_defs accum_sample_defs Let_def)
  have c: "tasks_to_accumulate (snd (submit_accum_tasks counted_queue)) = [done1, done2]"
    by (simp add: accum_defs accum_sample_defs Let_def)
  have d: "map children_of
        (submitted (snd (submit_accum_tasks
           (task_succeeded (snd (submit_accum_tasks counted_queue))
              (hd (submitted (snd (submit_accum_tasks counted_queue)))) 3))))
       = [[done1, done2], [done1, done2]]"
    by (simp add: accum_defs accum_sample_defs Let_def)
  have e: "fst (submit_accum_tasks pending_queue) = Some ZeroDivisionError"
    by (simp add: accum_defs accum_sample_defs Let_def)
  have f: "map children_of (submitted (snd (submit_accum_tasks pending_queue))) = [[done1, done2]]"
    by (simp add: accum_defs accum_sample_defs Let_def)
  have g: "tasks_to_accumulate (snd (submit_accum_tasks pending_queue)) = [done1, done2]"
    by (simp add: accum_defs accum_sample_defs Let_def)
  show ?thesis using a b c d e f g by (intro conjI)
qed


end
